theory Spec2Isabelle
  imports Complex_Main
begin

section \<open>Outcomes of a call\<close>

text \<open>
  A call either returns a value (\<open>Inr\<close>) or stops with one of the exceptions below
  (\<open>Inl\<close>). Floating-point numbers are modelled by the reals, so rounding is not part
  of the model. The sampler of \<open>sigma.py\<close> can reach \<open>inf\<close> and \<open>nan\<close>, which
  its numbers include (\<open>npfloat\<close> below). In \<open>normalize_y\<close> a response without
  spread gives \<open>0/0\<close>: there the model stops with \<open>FloatingPointError\<close>, the
  exception numpy raises under \<open>np.errstate(all='raise')\<close>, where by default it
  warns and goes on with \<open>nan\<close>.
\<close>

datatype error =
    NoSplittableVariableException
  | AttributeError
  | KeyError
  | ValueError
  | IndexError
  | NotImplementedError
  | FloatingPointError

section \<open>featureselection.py: SelectNullDistributionThreshold\<close>

text \<open>
  The two threshold functions imported from \<open>bartpy.diagnostics.features\<close> are only
  stored by the constructor, never called by it: they are two tokens here.
\<close>

datatype threshold_function = local_thresholds | global_thresholds

text \<open>
  The instance under construction: each attribute is \<open>None\<close> until \<open>__init__\<close> assigns
  it, and reading an unassigned attribute raises \<open>AttributeError\<close>. (The attribute
  \<open>method\<close> is the field \<open>method'\<close>: the plain name is reserved.)
\<close>

record 'm SelectNullDistributionThreshold =
  method' :: "threshold_function option"
  model :: "'m option"
  percentile :: "real option"
  n_permutations :: "int option"

definition new_instance :: "'m SelectNullDistributionThreshold" where
  "new_instance = \<lparr>method' = None, model = None, percentile = None, n_permutations = None\<rparr>"

definition get_method :: "'m SelectNullDistributionThreshold \<Rightarrow> error + threshold_function" where
  "get_method self = (case method' self of None \<Rightarrow> Inl AttributeError | Some f \<Rightarrow> Inr f)"

text \<open>
  \<open>__init__(self, model, percentile=0.95, method="local", n_permutations=10)\<close>.
  In the \<open>else\<close> branch the message of the exception is built first, from
  \<open>self.method\<close>; the \<open>raise\<close> is reached only if that read succeeds.
\<close>

definition SelectNullDistributionThreshold_init ::
  "'m \<Rightarrow> real \<Rightarrow> string \<Rightarrow> int \<Rightarrow> error + 'm SelectNullDistributionThreshold" where
  "SelectNullDistributionThreshold_init mdl pct meth n_perm =
     (let self = new_instance in
      case (if meth = ''local'' then Inr (self\<lparr>method' := Some local_thresholds\<rparr>)
            else if meth = ''global'' then Inr (self\<lparr>method' := Some global_thresholds\<rparr>)
            else (case get_method self of
                    Inl e \<Rightarrow> Inl e
                  | Inr f \<Rightarrow> Inl NotImplementedError)) of
        Inl e \<Rightarrow> Inl e
      | Inr self1 \<Rightarrow>
          Inr (self1\<lparr>model := Some mdl, percentile := Some pct, n_permutations := Some n_perm\<rparr>))"

section \<open>data.py: the covariate table and the response\<close>

text \<open>
  A pandas \<open>DataFrame\<close>, as far as \<open>Data\<close> uses it: the number of rows (\<open>len(X)\<close>)
  and the named columns, in column order. A column holds values of any linearly ordered
  type (numbers, in the tests of the repository).
\<close>

record 'a DataFrame =
  n_rows :: nat
  columns :: "(string \<times> 'a list) list"

definition well_formed :: "'a DataFrame \<Rightarrow> bool" where
  "well_formed X \<longleftrightarrow>
     distinct (map fst (columns X)) \<and> list_all (\<lambda>(name, col). length col = n_rows X) (columns X)"

text \<open>\<open>X[variable]\<close>: the column of that name, \<open>KeyError\<close> when there is none.\<close>

definition getitem :: "'a DataFrame \<Rightarrow> string \<Rightarrow> error + 'a list" where
  "getitem X variable =
     (case map_of (columns X) variable of None \<Rightarrow> Inl KeyError | Some col \<Rightarrow> Inr col)"

text \<open>\<open>d[key]\<close> on a dictionary, here an association list.\<close>

definition dict_get :: "(string \<times> 'v) list \<Rightarrow> string \<Rightarrow> error + 'v" where
  "dict_get d key = (case map_of d key of None \<Rightarrow> Inl KeyError | Some v \<Rightarrow> Inr v)"

text \<open>\<open>pd.Series.nunique\<close>: the number of distinct values of a column.\<close>

definition nunique :: "'a list \<Rightarrow> nat" where
  "nunique col = length (remdups col)"

text \<open>
  \<open>X.apply(np.max)\<close> on one column: its greatest value; a column without rows has
  none (pandas gives \<open>nan\<close>), which is \<open>None\<close> here.
\<close>

fun column_max :: "'a::linorder list \<Rightarrow> 'a option" where
  "column_max [] = None"
| "column_max (v # vs) = Some (fold max vs v)"

text \<open>\<open>np.min(y)\<close> and \<open>np.max(y)\<close> on an array: \<open>ValueError\<close> on an empty one.\<close>

fun np_min :: "real list \<Rightarrow> error + real" where
  "np_min [] = Inl ValueError"
| "np_min (v # vs) = Inr (fold min vs v)"

fun np_max :: "real list \<Rightarrow> error + real" where
  "np_max [] = Inl ValueError"
| "np_max (v # vs) = Inr (fold max vs v)"

text \<open>
  The random source of \<open>np.random.choice\<close>: \<open>draws\<close> is the sequence of raw numbers
  the generator will produce, and the generator's state is the position \<open>k\<close> of the next
  one. A choice from an array of \<open>n\<close> elements takes the element at index
  \<open>draws k mod n\<close>, so every index below \<open>n\<close> can be drawn, and moves to position
  \<open>k + 1\<close>. Choosing from an empty array raises \<open>ValueError\<close>.
\<close>

definition np_random_choice :: "(nat \<Rightarrow> nat) \<Rightarrow> 'a list \<Rightarrow> nat \<Rightarrow> (error + 'a) \<times> nat" where
  "np_random_choice draws a k =
     (if a = [] then (Inl ValueError, k)
      else (Inr (a ! (draws k mod length a)), Suc k))"

text \<open>
  An instance of \<open>Data\<close>. \<open>_X\<close>, \<open>_y\<close>, \<open>_n_unique_values\<close> and \<open>_max_values\<close> are the
  fields \<open>priv_...\<close>. The attributes that \<open>__init__\<close> assigns only under
  \<open>normalize\<close> or \<open>cache\<close> are \<open>None\<close> when they were not assigned, and reading them
  then raises \<open>AttributeError\<close>.
\<close>

record 'a Data =
  priv_X :: "'a DataFrame"
  priv_y :: "real list"
  original_y_min :: "real option"
  original_y_max :: "real option"
  priv_n_unique_values :: "(string \<times> nat) list option"
  priv_max_values :: "(string \<times> 'a option) list option"

text \<open>
  \<open>normalize_y\<close> (a static method): the bounds are those of its own argument. With
  \<open>y_max = y_min\<close> every entry is \<open>0/0\<close>.
\<close>

definition normalize_y :: "real list \<Rightarrow> error + real list" where
  "normalize_y y =
     (case np_min y of Inl e \<Rightarrow> Inl e | Inr y_min \<Rightarrow>
      case np_max y of Inl e \<Rightarrow> Inl e | Inr y_max \<Rightarrow>
        if y_max - y_min = 0 then Inl FloatingPointError
        else Inr (map (\<lambda>v. - 0.5 + ((v - y_min) / (y_max - y_min))) y))"

definition unnormalize_y :: "'a Data \<Rightarrow> real list \<Rightarrow> error + real list" where
  "unnormalize_y self y =
     (let distance_from_min = map (\<lambda>v. v - (- 0.5)) y in
      case original_y_max self of None \<Rightarrow> Inl AttributeError | Some y_max \<Rightarrow>
      case original_y_min self of None \<Rightarrow> Inl AttributeError | Some y_min \<Rightarrow>
        (let total_distance = y_max - y_min in
         Inr (map (\<lambda>d. y_min + (d * total_distance)) distance_from_min)))"

definition unnormalized_y :: "'a Data \<Rightarrow> error + real list" where
  "unnormalized_y self = unnormalize_y self (priv_y self)"

definition normalizing_scale :: "'a Data \<Rightarrow> error + real" where
  "normalizing_scale self =
     (case original_y_max self of None \<Rightarrow> Inl AttributeError | Some y_max \<Rightarrow>
      case original_y_min self of None \<Rightarrow> Inl AttributeError | Some y_min \<Rightarrow>
        Inr (y_max - y_min))"

text \<open>\<open>Data.__init__(self, X, y, normalize=False, cache=True)\<close>.\<close>

definition Data_init :: "'a::linorder DataFrame \<Rightarrow> real list \<Rightarrow> bool \<Rightarrow> bool \<Rightarrow> error + 'a Data" where
  "Data_init X y normalize_flag cache =
     (case (if normalize_flag then
              (case np_min y of Inl e \<Rightarrow> Inl e | Inr y_min \<Rightarrow>
               case np_max y of Inl e \<Rightarrow> Inl e | Inr y_max \<Rightarrow>
               case normalize_y y of Inl e \<Rightarrow> Inl e | Inr ny \<Rightarrow>
                 Inr (Some y_min, Some y_max, ny))
            else Inr (None, None, y)) of
        Inl e \<Rightarrow> Inl e
      | Inr (y_min, y_max, y') \<Rightarrow>
          Inr \<lparr>priv_X = X, priv_y = y',
               original_y_min = y_min, original_y_max = y_max,
               priv_n_unique_values =
                 (if cache then Some (map (\<lambda>(name, col). (name, nunique col)) (columns X))
                  else None),
               priv_max_values =
                 (if cache then Some (map (\<lambda>(name, col). (name, column_max col)) (columns X))
                  else None)\<rparr>)"

text \<open>
  \<open>splittable_variables\<close> returns a set of names; the list is that set, enumerated in
  the order of the dictionary's keys.
\<close>

definition splittable_variables :: "'a Data \<Rightarrow> error + string list" where
  "splittable_variables self =
     (case priv_n_unique_values self of
        None \<Rightarrow> Inl AttributeError
      | Some d \<Rightarrow>
          Inr (filter (\<lambda>x. case map_of d x of None \<Rightarrow> False | Some c \<Rightarrow> 1 < c) (map fst d)))"

definition variables :: "'a Data \<Rightarrow> string set" where
  "variables self = set (map fst (columns (priv_X self)))"

text \<open>
  \<open>random_splittable_variable\<close>. \<open>np.random.choice(array, 1)\<close> is an array of one
  name; the first \<open>[0]\<close> takes that name out, the second \<open>[0]\<close> indexes the name
  itself: its first character, or \<open>IndexError\<close> on the empty name.
\<close>

definition random_splittable_variable ::
  "(nat \<Rightarrow> nat) \<Rightarrow> 'a Data \<Rightarrow> nat \<Rightarrow> (error + string) \<times> nat" where
  "random_splittable_variable draws self k =
     (case splittable_variables self of
        Inl e \<Rightarrow> (Inl e, k)
      | Inr vs \<Rightarrow>
          if length vs = 0 then (Inl NoSplittableVariableException, k)
          else (case np_random_choice draws vs k of
                  (Inl e, k') \<Rightarrow> (Inl e, k')
                | (Inr name, k') \<Rightarrow>
                    (case name of [] \<Rightarrow> (Inl IndexError, k') | c # _ \<Rightarrow> (Inr [c], k'))))"

text \<open>
  The loop of \<open>random_splittable_value\<close>. It has no bound: \<open>None\<close> is the run that
  never leaves the loop.
\<close>

partial_function (option) redraw ::
  "(nat \<Rightarrow> nat) \<Rightarrow> 'a option \<Rightarrow> 'a list \<Rightarrow> 'a \<Rightarrow> nat \<Rightarrow> ((error + 'a) \<times> nat) option" where
  "redraw draws max_value col candidate k =
     (if Some candidate = max_value then
        (case np_random_choice draws col k of
           (Inl e, k') \<Rightarrow> Some (Inl e, k')
         | (Inr candidate', k') \<Rightarrow> redraw draws max_value col candidate' k')
      else Some (Inr candidate, k))"

definition random_splittable_value ::
  "(nat \<Rightarrow> nat) \<Rightarrow> 'a Data \<Rightarrow> string \<Rightarrow> nat \<Rightarrow> ((error + 'a) \<times> nat) option" where
  "random_splittable_value draws self variable k =
     (case priv_max_values self of
        None \<Rightarrow> Some (Inl AttributeError, k)
      | Some mv \<Rightarrow>
          (case dict_get mv variable of
             Inl e \<Rightarrow> Some (Inl e, k)
           | Inr max_value \<Rightarrow>
               (case getitem (priv_X self) variable of
                  Inl e \<Rightarrow> Some (Inl e, k)
                | Inr col \<Rightarrow>
                    (case np_random_choice draws col k of
                       (Inl e, k') \<Rightarrow> Some (Inl e, k')
                     | (Inr candidate, k') \<Rightarrow> redraw draws max_value col candidate k'))))"

definition unique_values :: "'a Data \<Rightarrow> string \<Rightarrow> error + 'a set" where
  "unique_values self variable =
     (case getitem (priv_X self) variable of Inl e \<Rightarrow> Inl e | Inr col \<Rightarrow> Inr (set col))"

definition n_obsv :: "'a Data \<Rightarrow> nat" where
  "n_obsv self = n_rows (priv_X self)"

definition n_splittable_variables :: "'a Data \<Rightarrow> error + nat" where
  "n_splittable_variables self =
     (case splittable_variables self of Inl e \<Rightarrow> Inl e | Inr vs \<Rightarrow> Inr (length (remdups vs)))"

definition n_unique_values :: "'a Data \<Rightarrow> string \<Rightarrow> error + nat" where
  "n_unique_values self variable =
     (case priv_n_unique_values self of
        None \<Rightarrow> Inl AttributeError
      | Some d \<Rightarrow> dict_get d variable)"

declare redraw.simps [code]

section \<open>samplers/sigma.py: the noise-variance update\<close>

text \<open>
  The numbers of the sampler: a real, \<open>inf\<close> or \<open>nan\<close>. (\<open>-inf\<close> is not reached:
  the only division is by a sum whose zero is \<open>+0.0\<close>, and a draw is not negative.)
\<close>

datatype npfloat = Finite real | PosInf | NaN

text \<open>\<open>v > 0\<close> on such a number: true of \<open>inf\<close>, false of \<open>nan\<close>.\<close>

fun greater_than_zero :: "npfloat \<Rightarrow> bool" where
  "greater_than_zero (Finite x) = (0 < x)"
| "greater_than_zero PosInf = True"
| "greater_than_zero NaN = False"

text \<open>
  Modelled from the spec: the class \<open>Sigma\<close> (\<open>bartpy.sigma\<close>) is not among the
  sources. The spec gives the holder two fixed prior hyperparameters, \<open>alpha\<close> and
  \<open>beta\<close>, and one mutable current value, which \<open>set_value\<close> replaces by whatever
  number it is given.
\<close>

record Sigma =
  alpha :: real
  beta :: real
  current_value :: npfloat

definition set_value :: "Sigma \<Rightarrow> npfloat \<Rightarrow> Sigma" where
  "set_value sigma v = sigma\<lparr>current_value := v\<rparr>"

text \<open>
  Modelled from the spec: the class \<open>Model\<close> (\<open>bartpy.model\<close>) is not among the
  sources. The sampler reads two things from it: \<open>model.data\<close>, a \<open>Data\<close>, and
  \<open>model.residuals()\<close>, one number for each observation.
\<close>

record 'a Model =
  data :: "'a Data"
  residuals :: "real list"

text \<open>
  \<open>1. / b\<close> on a numpy float: \<open>inf\<close> when \<open>b\<close> is zero (numpy warns and goes
  on).
\<close>

definition np_reciprocal :: "real \<Rightarrow> npfloat" where
  "np_reciprocal b = (if b = 0 then PosInf else Finite (1 / b))"

text \<open>
  \<open>np.power(x, -0.5)\<close>: \<open>inf\<close> at zero, \<open>nan\<close> below zero, and \<open>0.0\<close> at
  \<open>inf\<close>; it raises nothing.
\<close>

fun np_power_minus_half :: "npfloat \<Rightarrow> npfloat" where
  "np_power_minus_half (Finite x) =
     (if 0 < x then Finite (x powr (- 0.5)) else if x = 0 then PosInf else NaN)"
| "np_power_minus_half PosInf = Finite 0"
| "np_power_minus_half NaN = NaN"

text \<open>
  \<open>np.random.gamma(shape, scale)\<close> is a parameter, \<open>gamma\<close>: from the shape, the
  scale and the state of the generator it gives the draw, or the exception the library
  raises, and the next state of the generator.

  \<open>SigmaSampler.sample(model, sigma)\<close>:
\<close>

definition sample ::
  "(real \<Rightarrow> npfloat \<Rightarrow> 'g \<Rightarrow> (error + npfloat) \<times> 'g) \<Rightarrow> 'a Model \<Rightarrow> Sigma \<Rightarrow> 'g
     \<Rightarrow> (error + npfloat) \<times> 'g" where
  "sample gamma mdl sigma g =
     (let posterior_alpha = alpha sigma + (real (n_obsv (data mdl)) / 2);
          posterior_beta = beta sigma + (0.5 * (sum_list (map (\<lambda>r. r\<^sup>2) (residuals mdl))))
      in case gamma posterior_alpha (np_reciprocal posterior_beta) g of
           (Inl e, g') \<Rightarrow> (Inl e, g')
         | (Inr x, g') \<Rightarrow> (Inr (np_power_minus_half x), g'))"

text \<open>
  \<open>SigmaSampler.step(model, sigma)\<close>: the holder is mutated in place, so the step
  returns the holder along with its result. When \<open>sample\<close> raises, \<open>set_value\<close> is not
  reached and the holder is as it was.
\<close>

definition step ::
  "(real \<Rightarrow> npfloat \<Rightarrow> 'g \<Rightarrow> (error + npfloat) \<times> 'g) \<Rightarrow> 'a Model \<Rightarrow> Sigma \<Rightarrow> 'g
     \<Rightarrow> (error + string \<times> bool) \<times> Sigma \<times> 'g" where
  "step gamma mdl sigma g =
     (case sample gamma mdl sigma g of
        (Inl e, g') \<Rightarrow> (Inl e, sigma, g')
      | (Inr v, g') \<Rightarrow> (Inr (''Sigma'', True), set_value sigma v, g'))"

section \<open>Example data\<close>

text \<open>A table of two observations with one column, \<open>age\<close>, and a store over it.\<close>

definition example_frame :: "int DataFrame" where
  "example_frame = \<lparr>n_rows = 2, columns = [(''age'', [1, 2])]\<rparr>"

definition example_store :: "int Data" where
  "example_store =
     \<lparr>priv_X = example_frame, priv_y = [- 0.5, 0.5],
      original_y_min = Some 0, original_y_max = Some 10,
      priv_n_unique_values = Some [(''age'', 2)],
      priv_max_values = Some [(''age'', Some 2)]\<rparr>"

text \<open>
  A table whose one column has the empty string for its name, and a store over it.
\<close>

definition unnamed_frame :: "int DataFrame" where
  "unnamed_frame = \<lparr>n_rows = 2, columns = [([], [1, 2])]\<rparr>"

definition unnamed_store :: "int Data" where
  "unnamed_store =
     \<lparr>priv_X = unnamed_frame, priv_y = [0, 10],
      original_y_min = None, original_y_max = None,
      priv_n_unique_values = Some [([], 2)],
      priv_max_values = Some [([], Some 2)]\<rparr>"

text \<open>
  A stand-in for the gamma draw. Like the library it refuses a negative shape or scale
  and gives the scale times a standard draw; its standard draw is the mean of the standard
  distribution, the shape. It counts the draws.
\<close>

fun times_scale :: "real \<Rightarrow> npfloat \<Rightarrow> npfloat" where
  "times_scale x (Finite s) = Finite (s * x)"
| "times_scale x PosInf = (if x = 0 then NaN else PosInf)"
| "times_scale x NaN = NaN"

fun negative :: "npfloat \<Rightarrow> bool" where
  "negative (Finite s) = (s < 0)"
| "negative PosInf = False"
| "negative NaN = False"

definition example_gamma :: "real \<Rightarrow> npfloat \<Rightarrow> nat \<Rightarrow> (error + npfloat) \<times> nat" where
  "example_gamma shape scale g =
     (if shape < 0 \<or> negative scale then (Inl ValueError, g)
      else (Inr (times_scale shape scale), Suc g))"

definition example_model :: "int Model" where
  "example_model = \<lparr>data = example_store, residuals = [1 / 2, - 1 / 2]\<rparr>"

definition example_sigma :: Sigma where
  "example_sigma = \<lparr>alpha = 1, beta = 1 / 4, current_value = Finite 1\<rparr>"

text \<open>A model whose residuals are all zero, and a holder whose prior rate is zero.\<close>

definition exact_fit_model :: "int Model" where
  "exact_fit_model = \<lparr>data = example_store, residuals = [0, 0]\<rparr>"

definition zero_rate_sigma :: Sigma where
  "zero_rate_sigma = \<lparr>alpha = 1, beta = 0, current_value = Finite 1\<rparr>"

section \<open>Properties of featureselection.py\<close>

lemma init_local:
  "SelectNullDistributionThreshold_init mdl pct ''local'' n_perm =
     Inr \<lparr>method' = Some local_thresholds, model = Some mdl, percentile = Some pct,
          n_permutations = Some n_perm\<rparr>"
  by (simp add: SelectNullDistributionThreshold_init_def new_instance_def)

lemma init_global:
  "SelectNullDistributionThreshold_init mdl pct ''global'' n_perm =
     Inr \<lparr>method' = Some global_thresholds, model = Some mdl, percentile = Some pct,
          n_permutations = Some n_perm\<rparr>"
  by (simp add: SelectNullDistributionThreshold_init_def new_instance_def)

lemma init_unsupported:
  assumes "meth \<noteq> ''local''" and "meth \<noteq> ''global''"
  shows "SelectNullDistributionThreshold_init mdl pct meth n_perm = Inl AttributeError"
  using assms
  by (simp add: SelectNullDistributionThreshold_init_def new_instance_def get_method_def)

text \<open>
  Claim C9, at the failing input \<open>method = "median"\<close>: the claim says that the
  constructor raises \<open>NotImplementedError\<close>. The code raises \<open>AttributeError\<close>:
  the message is formatted from \<open>self.method\<close>, which the \<open>else\<close> branch never
  assigned, so the \<open>raise NotImplementedError\<close> is not reached.
\<close>

theorem init_unsupported_raises_AttributeError:
  "SelectNullDistributionThreshold_init mdl 0.95 ''median'' 10 = Inl AttributeError
   \<and> SelectNullDistributionThreshold_init mdl 0.95 ''median'' 10 \<noteq> Inl NotImplementedError"
  by (simp add: SelectNullDistributionThreshold_init_def new_instance_def get_method_def)

section \<open>Properties of data.py: the caches\<close>

lemma nunique_card: "nunique col = card (set col)"
  by (simp add: nunique_def length_remdups_card_conv)

lemma column_max_Some:
  "column_max col = Some m \<longleftrightarrow> col \<noteq> [] \<and> m = Max (set col)"
proof (cases col)
  case Nil
  then show ?thesis by simp
next
  case (Cons v vs)
  have "fold max vs v = Max (set (v # vs))" by (simp only: Max.set_eq_fold)
  with Cons show ?thesis by auto
qed

lemma below_max_exists:
  fixes col :: "'a::linorder list"
  assumes "1 < card (set col)"
  shows "\<exists>i<length col. col ! i < Max (set col)"
proof -
  have "\<exists>v\<in>set col. v \<noteq> Max (set col)"
  proof (rule ccontr)
    assume "\<not> ?thesis"
    then have "set col \<subseteq> {Max (set col)}" by auto
    then have "card (set col) \<le> card {Max (set col)}" by (intro card_mono) auto
    with assms show False by simp
  qed
  then obtain v where v: "v \<in> set col" "v \<noteq> Max (set col)" by blast
  then have "v \<le> Max (set col)" by simp
  with v have "v < Max (set col)" by (simp add: less_le)
  moreover from v obtain i where "i < length col" "col ! i = v" by (auto simp: in_set_conv_nth)
  ultimately show ?thesis by blast
qed

lemma dict_get_map:
  "dict_get (map (\<lambda>(name, col). (name, f col)) cols) v =
     (case map_of cols v of None \<Rightarrow> Inl KeyError | Some col \<Rightarrow> Inr (f col))"
  by (simp add: dict_get_def map_of_map split: option.splits)

lemma Data_init_cached:
  assumes "Data_init X y nf True = Inr D"
  shows "priv_X D = X"
    and "priv_n_unique_values D = Some (map (\<lambda>(name, col). (name, nunique col)) (columns X))"
    and "priv_max_values D = Some (map (\<lambda>(name, col). (name, column_max col)) (columns X))"
  using assms by (auto simp: Data_init_def split: if_splits sum.splits)

text \<open>
  In a store built with its caches, a variable of cached cardinality above 1 names a
  column with at least two distinct values, and its cached maximum is the greatest of them.
\<close>

lemma cached_column:
  assumes init: "Data_init X y nf True = Inr D"
    and card: "n_unique_values D v = Inr c" "1 < c"
  obtains col mv where "getitem (priv_X D) v = Inr col" and "1 < card (set col)"
    and "col \<noteq> []" and "priv_max_values D = Some mv"
    and "dict_get mv v = Inr (Some (Max (set col)))"
proof -
  note facts = Data_init_cached[OF init]
  from card(1) facts(2)
  have "(case map_of (columns X) v of None \<Rightarrow> Inl KeyError | Some col \<Rightarrow> Inr (nunique col)) = Inr c"
    by (simp add: n_unique_values_def dict_get_map)
  then obtain col where col: "map_of (columns X) v = Some col" and c: "c = nunique col"
    by (auto split: option.splits)
  from c card(2) have big: "1 < card (set col)" by (simp add: nunique_card)
  then have ne: "col \<noteq> []" by auto
  then have mx: "column_max col = Some (Max (set col))" by (simp add: column_max_Some)
  show thesis
  proof (rule that)
    show "getitem (priv_X D) v = Inr col" using col facts(1) by (simp add: getitem_def)
    show "1 < card (set col)" by (rule big)
    show "col \<noteq> []" by (rule ne)
    show "priv_max_values D = Some (map (\<lambda>(name, col). (name, column_max col)) (columns X))"
      by (rule facts(3))
    show "dict_get (map (\<lambda>(name, col). (name, column_max col)) (columns X)) v
            = Inr (Some (Max (set col)))"
      using col mx by (simp add: dict_get_map)
  qed
qed

lemma random_splittable_value_unfold:
  assumes "getitem (priv_X D) v = Inr col" and "col \<noteq> []"
    and "priv_max_values D = Some mv" and "dict_get mv v = Inr mx"
  shows "random_splittable_value draws D v k =
           redraw draws mx col (col ! (draws k mod length col)) (Suc k)"
  using assms by (simp add: random_splittable_value_def np_random_choice_def)

section \<open>Properties of data.py: the rejection loop\<close>

text \<open>Whatever the loop returns is not the maximum, and is the candidate or a value of the column.\<close>

lemma redraw_result:
  assumes "redraw draws mx col cand k = Some (r, k')" and "col \<noteq> []"
  shows "\<exists>c. r = Inr c \<and> Some c \<noteq> mx \<and> (c = cand \<or> c \<in> set col) \<and> k \<le> k'"
proof -
  have "col \<noteq> [] \<longrightarrow>
        (\<exists>c. fst (r, k') = Inr c \<and> Some c \<noteq> mx \<and> (c = cand \<or> c \<in> set col) \<and> k \<le> snd (r, k'))"
  proof (rule redraw.raw_induct
      [where P = "\<lambda>draws mx col cand k y. col \<noteq> [] \<longrightarrow>
         (\<exists>c. fst y = Inr c \<and> Some c \<noteq> mx \<and> (c = cand \<or> c \<in> set col) \<and> k \<le> snd y)"])
    show "redraw draws mx col cand k = Some (r, k')" by (rule assms(1))
  next
    fix f draws mx col cand k and y :: "(error + 'a) \<times> nat"
    assume IH: "\<And>d m xs x i z. f d m xs x i = Some z \<Longrightarrow>
        xs \<noteq> [] \<longrightarrow>
        (\<exists>c. fst z = Inr c \<and> Some c \<noteq> m \<and> (c = x \<or> c \<in> set xs) \<and> i \<le> snd z)"
      and body: "(if Some cand = mx
           then case np_random_choice draws col k of
                  (Inl e, k') \<Rightarrow> Some (Inl e, k')
                | (Inr candidate', k') \<Rightarrow> f draws mx col candidate' k'
           else Some (Inr cand, k)) = Some y"
    show "col \<noteq> [] \<longrightarrow>
        (\<exists>c. fst y = Inr c \<and> Some c \<noteq> mx \<and> (c = cand \<or> c \<in> set col) \<and> k \<le> snd y)"
    proof (cases "Some cand = mx")
      case False
      with body show ?thesis by auto
    next
      case True
      show ?thesis
      proof
        assume ne: "col \<noteq> []"
        let ?c = "col ! (draws k mod length col)"
        from ne have mem: "?c \<in> set col" by simp
        from True ne body have "f draws mx col ?c (Suc k) = Some y"
          by (simp add: np_random_choice_def)
        from IH[OF this] ne mem
        show "\<exists>c. fst y = Inr c \<and> Some c \<noteq> mx \<and> (c = cand \<or> c \<in> set col) \<and> k \<le> snd y"
          by auto
      qed
    qed
  qed
  with assms(2) show ?thesis by simp
qed

text \<open>The loop is left at the latest when draw number \<open>j\<close> is not the maximum.\<close>

lemma redraw_stops:
  assumes "col \<noteq> []"
  shows "k \<le> Suc j \<Longrightarrow> (k = Suc j \<longrightarrow> Some cand \<noteq> mx) \<Longrightarrow>
         Some (col ! (draws j mod length col)) \<noteq> mx \<Longrightarrow>
         \<exists>c k'. redraw draws mx col cand k = Some (Inr c, k') \<and> k' \<le> Suc j"
proof (induction "Suc j - k" arbitrary: k cand)
  case 0
  then have "Some cand \<noteq> mx" by simp
  then show ?case using 0 by (subst redraw.simps) simp
next
  case (Suc n)
  show ?case
  proof (cases "Some cand = mx")
    case False
    then show ?thesis using Suc.prems by (subst redraw.simps) simp
  next
    case True
    let ?c = "col ! (draws k mod length col)"
    from Suc.hyps(2) have kj: "k \<le> j" by simp
    have "\<exists>c k'. redraw draws mx col ?c (Suc k) = Some (Inr c, k') \<and> k' \<le> Suc j"
    proof (rule Suc.hyps(1))
      show "n = Suc j - Suc k" using Suc.hyps(2) by simp
      show "Suc k \<le> Suc j" using kj by simp
      show "Suc k = Suc j \<longrightarrow> Some ?c \<noteq> mx" using Suc.prems(3) by auto
      show "Some (col ! (draws j mod length col)) \<noteq> mx" by (rule Suc.prems(3))
    qed
    then show ?thesis using True assms
      by (subst redraw.simps) (simp add: np_random_choice_def)
  qed
qed

text \<open>
  A generator that draws the maximum at every position from \<open>k\<close> on keeps the loop
  running for ever: the loop ends by chance, not by a bound.
\<close>

lemma redraw_never_returns:
  assumes "col \<noteq> []" and "Some cand = mx"
    and "\<forall>j\<ge>k. Some (col ! (draws j mod length col)) = mx"
  shows "redraw draws mx col cand k = None"
proof (rule ccontr)
  assume "redraw draws mx col cand k \<noteq> None"
  then obtain y where y: "redraw draws mx col cand k = Some y" by auto
  have "\<not> (col \<noteq> [] \<and> Some cand = mx \<and>
           (\<forall>j\<ge>k. Some (col ! (draws j mod length col)) = mx))"
  proof (rule redraw.raw_induct
      [where P = "\<lambda>draws mx col cand k y. \<not> (col \<noteq> [] \<and> Some cand = mx \<and>
           (\<forall>j\<ge>k. Some (col ! (draws j mod length col)) = mx))"])
    show "redraw draws mx col cand k = Some y" by (rule y)
  next
    fix f draws mx col cand k and y :: "(error + 'a) \<times> nat"
    assume IH: "\<And>d m xs x i z. f d m xs x i = Some z \<Longrightarrow>
        \<not> (xs \<noteq> [] \<and> Some x = m \<and>
           (\<forall>j\<ge>i. Some (xs ! (d j mod length xs)) = m))"
      and body: "(if Some cand = mx
           then case np_random_choice draws col k of
                  (Inl e, k') \<Rightarrow> Some (Inl e, k')
                | (Inr candidate', k') \<Rightarrow> f draws mx col candidate' k'
           else Some (Inr cand, k)) = Some y"
    show "\<not> (col \<noteq> [] \<and> Some cand = mx \<and>
           (\<forall>j\<ge>k. Some (col ! (draws j mod length col)) = mx))"
    proof
      assume inv: "col \<noteq> [] \<and> Some cand = mx \<and>
                   (\<forall>j\<ge>k. Some (col ! (draws j mod length col)) = mx)"
      let ?c = "col ! (draws k mod length col)"
      from inv body have "f draws mx col ?c (Suc k) = Some y"
        by (simp add: np_random_choice_def)
      from IH[OF this] inv show False by auto
    qed
  qed
  with assms show False by simp
qed

lemma example_store_init:
  "Data_init example_frame [0, 10] True True = Inr example_store"
  by (simp add: Data_init_def normalize_y_def example_frame_def example_store_def nunique_def)

lemma example_store_cardinality: "n_unique_values example_store ''age'' = Inr 2"
  by (simp add: n_unique_values_def dict_get_def example_store_def)

lemma example_frame_well_formed: "well_formed example_frame"
  by (simp add: well_formed_def example_frame_def)

section \<open>Properties of data.py: choosing a variable\<close>

text \<open>
  What \<open>random_splittable_variable\<close> returns is the first character of a splittable
  variable's name.
\<close>

lemma random_splittable_variable_returns:
  assumes "random_splittable_variable draws self k = (Inr c, k')"
  shows "\<exists>vs name. splittable_variables self = Inr vs \<and> name \<in> set vs \<and> name \<noteq> [] \<and>
           c = [hd name] \<and> k' = Suc k"
proof -
  from assms obtain vs where vs: "splittable_variables self = Inr vs" "vs \<noteq> []"
    by (auto simp: random_splittable_variable_def split: sum.splits if_splits)
  let ?name = "vs ! (draws k mod length vs)"
  from vs(2) have mem: "?name \<in> set vs" by simp
  from assms vs have "?name \<noteq> [] \<and> c = [hd ?name] \<and> k' = Suc k"
    by (auto simp: random_splittable_variable_def np_random_choice_def split: list.splits)
  with vs(1) mem show ?thesis by blast
qed

text \<open>
  Claim C3, at the failing input: a store over the single column \<open>age\<close>, whose values
  1 and 2 make it splittable. The claim says that \<open>random_splittable_variable\<close> returns a
  member of \<open>splittable_variables()\<close>, a full variable name. Whatever the generator
  draws, the code returns \<open>a\<close>, the first character of \<open>age\<close>, which is not a
  member: the result of \<open>np.random.choice(..., 1)\<close> is indexed twice.
\<close>

theorem random_splittable_variable_first_character:
  "Data_init example_frame [0, 10] True True = Inr example_store
   \<and> splittable_variables example_store = Inr [''age'']
   \<and> random_splittable_variable draws example_store k = (Inr ''a'', Suc k)
   \<and> ''a'' \<notin> set [''age'']"
  by (simp add: Data_init_def normalize_y_def example_frame_def example_store_def nunique_def
      splittable_variables_def random_splittable_variable_def np_random_choice_def)

text \<open>
  \<open>NoSplittableVariableException\<close> is raised if and only if \<open>splittable_variables()\<close>
  is empty, at every state of the generator.
\<close>

lemma NoSplittableVariableException_iff_empty:
  "fst (random_splittable_variable draws self k) = Inl NoSplittableVariableException
     \<longleftrightarrow> splittable_variables self = Inr []"
proof (cases "splittable_variables self")
  case (Inl e)
  then have "e = AttributeError"
    by (auto simp: splittable_variables_def split: option.splits)
  with Inl show ?thesis by (simp add: random_splittable_variable_def)
next
  case (Inr vs)
  then show ?thesis
    by (cases "vs ! (draws k mod length vs)")
      (auto simp: random_splittable_variable_def np_random_choice_def)
qed

text \<open>
  With a splittable variable, the call returns or raises \<open>IndexError\<close>, according to
  whether the name drawn has a first character.
\<close>

lemma random_splittable_variable_nonempty:
  assumes "splittable_variables self = Inr vs" and "vs \<noteq> []"
  shows "random_splittable_variable draws self k =
           (case vs ! (draws k mod length vs) of
              [] \<Rightarrow> (Inl IndexError, Suc k)
            | c # _ \<Rightarrow> (Inr [c], Suc k))"
  using assms by (simp add: random_splittable_variable_def np_random_choice_def)

text \<open>
  Claim C4, at the failing input: a store over a single column whose name is the empty
  string and whose values 1 and 2 make it splittable. The claim says that with at least
  one splittable variable \<open>random_splittable_variable\<close> never raises. Whatever the
  generator draws, the code raises \<open>IndexError\<close>: the second \<open>[0]\<close> indexes the
  drawn name, which has no first character. It is the defect of claim C3. (That
  \<open>NoSplittableVariableException\<close> is raised exactly when \<open>splittable_variables()\<close> is
  empty does hold: \<open>NoSplittableVariableException_iff_empty\<close>.)
\<close>

theorem random_splittable_variable_raises_IndexError:
  "Data_init unnamed_frame [0, 10] False True = Inr unnamed_store
   \<and> splittable_variables unnamed_store = Inr [[]]
   \<and> random_splittable_variable draws unnamed_store k = (Inl IndexError, Suc k)"
  by (simp add: Data_init_def unnamed_frame_def unnamed_store_def nunique_def
      splittable_variables_def random_splittable_variable_def np_random_choice_def)

section \<open>Properties of data.py: choosing a value\<close>

text \<open>
  Claim C5: in a store built with its caches over a well-formed table (one column for
  each name), for a variable \<open>v\<close> of cached cardinality
  above 1, whatever \<open>random_splittable_value(v)\<close> returns is a value of the column
  \<open>v\<close> strictly below the cached maximum of \<open>v\<close>, and no exception is raised; and it
  does return such a value as soon as one draw lands on a row below the maximum.
\<close>

theorem random_splittable_value_below_max:
  assumes "well_formed X" and "Data_init X y nf True = Inr D"
    and "n_unique_values D v = Inr c" and "1 < c"
  shows "\<exists>col mv mx. getitem (priv_X D) v = Inr col \<and> priv_max_values D = Some mv
           \<and> dict_get mv v = Inr (Some mx)
           \<and> (\<forall>r k'. random_splittable_value draws D v k = Some (r, k')
                 \<longrightarrow> (\<exists>x. r = Inr x \<and> x \<in> set col \<and> x < mx))
           \<and> (\<forall>j. k \<le> j \<and> col ! (draws j mod length col) < mx
                 \<longrightarrow> (\<exists>x k'. random_splittable_value draws D v k = Some (Inr x, k')
                        \<and> x \<in> set col \<and> x < mx))"
proof -
  from assms(2-4) obtain col mv where col: "getitem (priv_X D) v = Inr col"
    "1 < card (set col)" "col \<noteq> []" "priv_max_values D = Some mv"
    "dict_get mv v = Inr (Some (Max (set col)))"
    by (rule cached_column)
  let ?mx = "Max (set col)"
  note unfold = random_splittable_value_unfold[OF col(1) col(3) col(4) col(5)]
  have first: "col ! (draws k mod length col) \<in> set col" using col(3) by simp
  have part: "\<exists>x. r = Inr x \<and> x \<in> set col \<and> x < ?mx"
    if "random_splittable_value draws D v k = Some (r, k')" for r k'
  proof -
    from that unfold
    have "redraw draws (Some ?mx) col (col ! (draws k mod length col)) (Suc k) = Some (r, k')"
      by simp
    from redraw_result[OF this col(3)] first
    obtain x where x: "r = Inr x" "x \<noteq> ?mx" "x \<in> set col" by auto
    then have "x \<le> ?mx" by simp
    with x show ?thesis by (auto simp: less_le)
  qed
  have total: "\<exists>x k'. random_splittable_value draws D v k = Some (Inr x, k')
                 \<and> x \<in> set col \<and> x < ?mx"
    if "k \<le> j \<and> col ! (draws j mod length col) < ?mx" for j
  proof -
    from that have hit: "Some (col ! (draws j mod length col)) \<noteq> Some ?mx" by auto
    have "\<exists>x k'. redraw draws (Some ?mx) col (col ! (draws k mod length col)) (Suc k)
                    = Some (Inr x, k') \<and> k' \<le> Suc j"
    proof (rule redraw_stops[OF col(3)])
      show "Suc k \<le> Suc j" using that by simp
      show "Suc k = Suc j \<longrightarrow> Some (col ! (draws k mod length col)) \<noteq> Some ?mx"
        using hit by auto
      show "Some (col ! (draws j mod length col)) \<noteq> Some ?mx" by (rule hit)
    qed
    then obtain x k' where ret: "random_splittable_value draws D v k = Some (Inr x, k')"
      using unfold by auto
    from part[OF ret] ret show ?thesis by auto
  qed
  from col(1) col(4) col(5) part total show ?thesis by blast
qed

theorem random_splittable_value_below_max_witness:
  "well_formed example_frame
   \<and> Data_init example_frame [0, 10] True True = Inr example_store
   \<and> n_unique_values example_store ''age'' = Inr 2 \<and> (1::nat) < 2
   \<and> (\<exists>x k'. random_splittable_value (\<lambda>k. k) example_store ''age'' 1 = Some (Inr x, k')
          \<and> x \<in> {1, 2} \<and> x < 2)"
proof -
  have one: "(1::nat) < 2" by simp
  from random_splittable_value_below_max
    [OF example_frame_well_formed example_store_init example_store_cardinality one,
     of "\<lambda>k. k" 1]
  obtain col mv mx where col: "getitem (priv_X example_store) ''age'' = Inr col"
    and mv: "priv_max_values example_store = Some mv"
    and mx: "dict_get mv ''age'' = Inr (Some mx)"
    and total: "\<forall>j. 1 \<le> j \<and> col ! (j mod length col) < mx
                 \<longrightarrow> (\<exists>x k'. random_splittable_value (\<lambda>k. k) example_store ''age'' 1
                          = Some (Inr x, k') \<and> x \<in> set col \<and> x < mx)"
    by blast
  from col have c: "col = [1, 2]"
    by (simp add: getitem_def example_store_def example_frame_def)
  from mv mx have m: "mx = 2" by (auto simp: dict_get_def example_store_def)
  have len: "length col = 2" using c by simp
  have "col ! (2 mod length col) = 1" unfolding len using c by simp
  with m have "1 \<le> (2::nat) \<and> col ! (2 mod length col) < mx" by simp
  with total have "\<exists>x k'. random_splittable_value (\<lambda>k. k) example_store ''age'' 1
                          = Some (Inr x, k') \<and> x \<in> set col \<and> x < mx"
    by blast
  with c m example_frame_well_formed example_store_init example_store_cardinality
  show ?thesis by simp
qed

text \<open>
  Claim C6: in a store built with its caches over a well-formed table, for a variable
  \<open>v\<close> of cached cardinality above 1 some observed value of
  \<open>v\<close> is strictly below the cached maximum, and the loop of
  \<open>random_splittable_value(v)\<close> ends: when draw number \<open>j\<close> is the first to land on
  such a value, the call returns having used at most the draws up to \<open>j\<close>. (Each draw
  does so with probability at least \<open>1/n\<close>; \<open>redraw_never_returns\<close> is the run of
  probability zero that never does.)
\<close>

theorem random_splittable_value_terminates:
  assumes "well_formed X" and "Data_init X y nf True = Inr D"
    and "n_unique_values D v = Inr c" and "1 < c"
  shows "\<exists>col mv mx. getitem (priv_X D) v = Inr col \<and> priv_max_values D = Some mv
           \<and> dict_get mv v = Inr (Some mx)
           \<and> (\<exists>i<length col. col ! i < mx)
           \<and> (\<forall>draws k j. k \<le> j \<and> col ! (draws j mod length col) < mx
                 \<longrightarrow> (\<exists>x k'. random_splittable_value draws D v k = Some (Inr x, k')
                        \<and> k' \<le> Suc j))"
proof -
  from assms(2-4) obtain col mv where col: "getitem (priv_X D) v = Inr col"
    "1 < card (set col)" "col \<noteq> []" "priv_max_values D = Some mv"
    "dict_get mv v = Inr (Some (Max (set col)))"
    by (rule cached_column)
  let ?mx = "Max (set col)"
  have below: "\<exists>i<length col. col ! i < ?mx" using col(2) by (rule below_max_exists)
  have ends: "\<exists>x k'. random_splittable_value draws D v k = Some (Inr x, k') \<and> k' \<le> Suc j"
    if "k \<le> j \<and> col ! (draws j mod length col) < ?mx" for draws k j
  proof -
    from that have hit: "Some (col ! (draws j mod length col)) \<noteq> Some ?mx" by auto
    have "\<exists>x k'. redraw draws (Some ?mx) col (col ! (draws k mod length col)) (Suc k)
                    = Some (Inr x, k') \<and> k' \<le> Suc j"
    proof (rule redraw_stops[OF col(3)])
      show "Suc k \<le> Suc j" using that by simp
      show "Suc k = Suc j \<longrightarrow> Some (col ! (draws k mod length col)) \<noteq> Some ?mx"
        using hit by auto
      show "Some (col ! (draws j mod length col)) \<noteq> Some ?mx" by (rule hit)
    qed
    then show ?thesis
      using random_splittable_value_unfold[OF col(1) col(3) col(4) col(5)] by simp
  qed
  from col(1) col(4) col(5) below ends show ?thesis by blast
qed

theorem random_splittable_value_terminates_witness:
  "well_formed example_frame
   \<and> Data_init example_frame [0, 10] True True = Inr example_store
   \<and> n_unique_values example_store ''age'' = Inr 2 \<and> (1::nat) < 2
   \<and> (\<exists>x k'. random_splittable_value (\<lambda>k. k) example_store ''age'' 1 = Some (Inr x, k')
          \<and> k' \<le> 3)"
proof -
  have one: "(1::nat) < 2" by simp
  from random_splittable_value_terminates
    [OF example_frame_well_formed example_store_init example_store_cardinality one]
  obtain col mv mx where col: "getitem (priv_X example_store) ''age'' = Inr col"
    and mv: "priv_max_values example_store = Some mv"
    and mx: "dict_get mv ''age'' = Inr (Some mx)"
    and ends: "\<forall>draws k j. k \<le> j \<and> col ! (draws j mod length col) < mx
                 \<longrightarrow> (\<exists>x k'. random_splittable_value draws example_store ''age'' k
                          = Some (Inr x, k') \<and> k' \<le> Suc j)"
    by blast
  from col have c: "col = [1, 2]"
    by (simp add: getitem_def example_store_def example_frame_def)
  from mv mx have m: "mx = 2" by (auto simp: dict_get_def example_store_def)
  have len: "length col = 2" using c by simp
  have "col ! (2 mod length col) = 1" unfolding len using c by simp
  with m have hit: "(1::nat) \<le> 2 \<and> col ! (2 mod length col) < mx" by simp
  from ends have "(1::nat) \<le> 2 \<and> col ! (2 mod length col) < mx
      \<longrightarrow> (\<exists>x k'. random_splittable_value (\<lambda>k. k) example_store ''age'' 1
                          = Some (Inr x, k') \<and> k' \<le> Suc 2)"
    by (rule allE [where x = "\<lambda>k. k"]) (erule allE [where x = 1], erule allE [where x = 2])
  with hit have "\<exists>x k'. random_splittable_value (\<lambda>k. k) example_store ''age'' 1
                          = Some (Inr x, k') \<and> k' \<le> Suc 2"
    by (rule rev_mp)
  moreover have "Suc 2 = (3::nat)" by simp
  ultimately have "\<exists>x k'. random_splittable_value (\<lambda>k. k) example_store ''age'' 1
                          = Some (Inr x, k') \<and> k' \<le> 3"
    by (simp only:)
  with example_frame_well_formed example_store_init example_store_cardinality one
  show ?thesis by (intro conjI)
qed

section \<open>Properties of data.py: normalizing the response\<close>

lemma np_min_Inr: "np_min y = Inr m \<longleftrightarrow> y \<noteq> [] \<and> m = Min (set y)"
proof (cases y)
  case Nil
  then show ?thesis by simp
next
  case (Cons v vs)
  have "fold min vs v = Min (set (v # vs))" by (simp only: Min.set_eq_fold)
  with Cons show ?thesis by auto
qed

lemma np_max_Inr: "np_max y = Inr m \<longleftrightarrow> y \<noteq> [] \<and> m = Max (set y)"
proof (cases y)
  case Nil
  then show ?thesis by simp
next
  case (Cons v vs)
  have "fold max vs v = Max (set (v # vs))" by (simp only: Max.set_eq_fold)
  with Cons show ?thesis by auto
qed

lemma normalize_y_Inr:
  assumes "np_min y = Inr y_min" and "np_max y = Inr y_max" and "y_min < y_max"
  shows "normalize_y y = Inr (map (\<lambda>v. - 0.5 + ((v - y_min) / (y_max - y_min))) y)"
  using assms by (simp add: normalize_y_def)

text \<open>
  Normalizing by the bounds of \<open>y\<close> and unnormalizing by the bounds of the store
  stretches \<open>y\<close> from its own range onto the original range.
\<close>

lemma unnormalize_normalize:
  assumes "original_y_min D = Some mn" and "original_y_max D = Some mx"
    and "y_min < y_max"
  shows "unnormalize_y D (map (\<lambda>v. - 0.5 + ((v - y_min) / (y_max - y_min))) y)
           = Inr (map (\<lambda>v. mn + ((v - y_min) / (y_max - y_min)) * (mx - mn)) y)"
  using assms by (simp add: unnormalize_y_def)

lemma Data_init_normalized:
  assumes "Data_init X y True cache = Inr D"
  shows "\<exists>mn mx z. np_min y = Inr mn \<and> np_max y = Inr mx \<and> mn < mx \<and> normalize_y y = Inr z
           \<and> priv_y D = z \<and> original_y_min D = Some mn \<and> original_y_max D = Some mx"
proof -
  from assms obtain mn mx z where b: "np_min y = Inr mn" "np_max y = Inr mx"
    "normalize_y y = Inr z" and D: "priv_y D = z" "original_y_min D = Some mn"
    "original_y_max D = Some mx"
    by (auto simp: Data_init_def split: sum.splits)
  from b have "mx - mn \<noteq> 0" by (auto simp: normalize_y_def split: if_splits)
  moreover from b(1,2) have "mn \<le> mx" by (auto simp: np_min_Inr np_max_Inr)
  ultimately have "mn < mx" by simp
  with b D show ?thesis by blast
qed

text \<open>
  Claim C1 fails as stated: the store is built over the response \<open>[0, 10]\<close>, and
  \<open>y = [2, 4]\<close> lies within that range with \<open>max(y) > min(y)\<close>. \<open>normalize_y\<close>
  takes the bounds 2 and 4 of its own argument, so \<open>y\<close> becomes \<open>[-0.5, 0.5]\<close>, and
  \<open>unnormalize_y\<close> gives \<open>[0, 10]\<close>, not \<open>[2, 4]\<close>: a difference of 2 and 6, not
  of rounding.
\<close>

theorem normalize_round_trip_counterexample:
  "Data_init example_frame [0, 10] True True = Inr example_store
   \<and> np_min [2, 4] = Inr 2 \<and> np_max [2, 4] = Inr 4
   \<and> normalize_y [2, 4] = Inr [- 0.5, 0.5]
   \<and> unnormalize_y example_store [- 0.5, 0.5] = Inr [0, 10]
   \<and> [0, 10] \<noteq> [2, 4 :: real]"
  by (simp add: Data_init_def normalize_y_def unnormalize_y_def example_frame_def
      example_store_def nunique_def)

text \<open>
  Claim C1, amended: for a store built with normalization and a response \<open>y\<close> with
  \<open>max(y) > min(y)\<close>, \<open>unnormalize_y(normalize_y(y))\<close> is defined, and it equals
  \<open>y\<close> exactly when the minimum and the maximum of \<open>y\<close> are the original minimum and
  maximum of the store (as they are for the response the store was built over).
\<close>

theorem normalize_round_trip:
  assumes "Data_init X y0 True cache = Inr D"
    and "np_min y = Inr y_min" and "np_max y = Inr y_max" and "y_min < y_max"
  shows "\<exists>z w. normalize_y y = Inr z \<and> unnormalize_y D z = Inr w
           \<and> (w = y \<longleftrightarrow> original_y_min D = Some y_min \<and> original_y_max D = Some y_max)"
proof -
  from Data_init_normalized[OF assms(1)] obtain mn mx
    where D: "original_y_min D = Some mn" "original_y_max D = Some mx" and lt: "mn < mx"
    by blast
  let ?z = "map (\<lambda>v. - 0.5 + ((v - y_min) / (y_max - y_min))) y"
  let ?f = "\<lambda>v. mn + ((v - y_min) / (y_max - y_min)) * (mx - mn)"
  have z: "normalize_y y = Inr ?z" by (rule normalize_y_Inr[OF assms(2-4)])
  have w: "unnormalize_y D ?z = Inr (map ?f y)" by (rule unnormalize_normalize[OF D assms(4)])
  have "map ?f y = y \<longleftrightarrow> mn = y_min \<and> mx = y_max"
  proof
    assume eq: "map ?f y = y"
    from assms(2,3) have mem: "y_min \<in> set y" "y_max \<in> set y"
      by (auto simp: np_min_Inr np_max_Inr)
    have fixed: "?f v = v" if "v \<in> set y" for v
    proof -
      from eq have "map ?f y = map (\<lambda>v. v) y" by simp
      then show ?thesis using that by (simp only: map_eq_conv)
    qed
    from fixed[OF mem(1)] have a: "mn = y_min" by simp
    from fixed[OF mem(2)] assms(4) have "mx = y_max" by simp
    with a show "mn = y_min \<and> mx = y_max" by simp
  next
    assume "mn = y_min \<and> mx = y_max"
    with assms(4) have "?f v = v" for v by simp
    then show "map ?f y = y" by (simp add: map_idI)
  qed
  with D have "map ?f y = y \<longleftrightarrow> original_y_min D = Some y_min \<and> original_y_max D = Some y_max"
    by auto
  with z w show ?thesis by blast
qed

theorem normalize_round_trip_witness:
  "Data_init example_frame [0, 10] True True = Inr example_store
   \<and> np_min [0, 10] = Inr 0 \<and> np_max [0, 10] = Inr 10 \<and> (0::real) < 10
   \<and> (\<exists>z. normalize_y [0, 10] = Inr z \<and> unnormalize_y example_store z = Inr [0, 10])"
proof -
  have mn: "np_min [0, 10] = Inr 0" and mx: "np_max [0, 10] = Inr 10" and lt: "(0::real) < 10"
    by simp_all
  from normalize_round_trip[OF example_store_init mn mx lt]
  obtain z w where z: "normalize_y [0, 10] = Inr z" and w: "unnormalize_y example_store z = Inr w"
    and iff: "w = [0, 10] \<longleftrightarrow> original_y_min example_store = Some 0
                \<and> original_y_max example_store = Some 10"
    by blast
  have "original_y_min example_store = Some 0 \<and> original_y_max example_store = Some 10"
    by (simp add: example_store_def)
  with iff have "w = [0, 10]" by (rule iffD2)
  with z w have "\<exists>z. normalize_y [0, 10] = Inr z \<and> unnormalize_y example_store z = Inr [0, 10]"
    by blast
  with example_store_init mn mx lt show ?thesis by (intro conjI)
qed

text \<open>
  Claim C10: a store built with \<open>normalize=True\<close> over a response \<open>y\<close> with
  \<open>max(y) > min(y)\<close> is constructed without an exception, and its \<open>unnormalized_y\<close>
  is \<open>y\<close> (in exact arithmetic: the claim's equality up to rounding).
\<close>

theorem unnormalized_y_is_original:
  assumes "np_min y = Inr y_min" and "np_max y = Inr y_max" and "y_min < y_max"
  shows "\<exists>D. Data_init X y True cache = Inr D \<and> unnormalized_y D = Inr y
           \<and> original_y_min D = Some y_min \<and> original_y_max D = Some y_max"
proof -
  let ?z = "map (\<lambda>v. - 0.5 + ((v - y_min) / (y_max - y_min))) y"
  have z: "normalize_y y = Inr ?z" by (rule normalize_y_Inr[OF assms])
  with assms obtain D where D: "Data_init X y True cache = Inr D" "priv_y D = ?z"
    "original_y_min D = Some y_min" "original_y_max D = Some y_max"
    by (simp add: Data_init_def)
  have "unnormalize_y D ?z
          = Inr (map (\<lambda>v. y_min + ((v - y_min) / (y_max - y_min)) * (y_max - y_min)) y)"
    by (rule unnormalize_normalize[OF D(3,4) assms(3)])
  moreover have "y_min + ((v - y_min) / (y_max - y_min)) * (y_max - y_min) = v" for v
    using assms(3) by simp
  ultimately have "unnormalized_y D = Inr y" using D(2) by (simp add: unnormalized_y_def)
  with D show ?thesis by blast
qed

theorem unnormalized_y_is_original_witness:
  "np_min [0, 10] = Inr 0 \<and> np_max [0, 10] = Inr 10 \<and> (0::real) < 10
   \<and> Data_init example_frame [0, 10] True True = Inr example_store
   \<and> unnormalized_y example_store = Inr [0, 10]"
proof -
  have mn: "np_min [0, 10] = Inr 0" and mx: "np_max [0, 10] = Inr 10" and lt: "(0::real) < 10"
    by simp_all
  from unnormalized_y_is_original[OF mn mx lt, of example_frame True]
  obtain D where "Data_init example_frame [0, 10] True True = Inr D"
    and u: "unnormalized_y D = Inr [0, 10]"
    by blast
  with example_store_init have "D = example_store" by simp
  with u have "unnormalized_y example_store = Inr [0, 10]" by simp
  with mn mx lt example_store_init show ?thesis by (intro conjI)
qed

section \<open>Properties of samplers/sigma.py\<close>

lemma power_minus_half: "0 < x \<Longrightarrow> x powr (- (1 / 2)) = 1 / sqrt x"
proof -
  assume pos: "0 < x"
  have "x powr (- (1 / 2)) = 1 / (x powr (1 / 2))"
    by (simp only: powr_minus divide_inverse mult_1)
  also have "x powr (1 / 2) = sqrt x" using pos by (simp add: powr_half_sqrt)
  finally show ?thesis .
qed

text \<open>
  The power is greater than zero exactly for a finite draw that is not negative: a
  positive draw gives a positive real, the draw \<open>0.0\<close> gives \<open>inf\<close>, and the draw
  \<open>inf\<close> gives \<open>0.0\<close>.
\<close>

lemma np_power_minus_half_positive:
  "greater_than_zero (np_power_minus_half d) \<longleftrightarrow> (\<exists>x. d = Finite x \<and> 0 \<le> x)"
  by (cases d) auto

text \<open>
  With a positive prior rate \<open>beta\<close> the posterior rate is positive, so the scale is a
  positive real; with a positive prior shape \<open>alpha\<close> the posterior shape is positive.
\<close>

lemma posterior_rate_positive:
  "0 < beta sigma \<Longrightarrow> 0 < beta sigma + 0.5 * (\<Sum>r\<leftarrow>residuals mdl. r\<^sup>2)"
proof -
  assume "0 < beta sigma"
  moreover have "0 \<le> (\<Sum>r\<leftarrow>residuals mdl. r\<^sup>2)" by (rule sum_list_nonneg) auto
  ultimately show ?thesis by simp
qed

lemma posterior_shape_positive:
  "0 < alpha sigma \<Longrightarrow> 0 < alpha sigma + real (n_obsv (data mdl)) / 2"
  by (simp add: add_pos_nonneg)

lemma np_reciprocal_positive: "0 < b \<Longrightarrow> np_reciprocal b = Finite (1 / b) \<and> 0 < 1 / b"
  by (simp add: np_reciprocal_def)

lemma sample_cases:
  "sample gamma mdl sigma g =
     (let shape = alpha sigma + real (n_obsv (data mdl)) / 2;
          rate = beta sigma + 0.5 * (\<Sum>r\<leftarrow>residuals mdl. r\<^sup>2)
      in case gamma shape (if rate = 0 then PosInf else Finite (1 / rate)) g of
           (Inl e, g') \<Rightarrow> (Inl e, g')
         | (Inr x, g') \<Rightarrow> (Inr (np_power_minus_half x), g'))"
  by (simp add: sample_def np_reciprocal_def Let_def)

lemma step_cases:
  "step gamma mdl sigma g =
     (case sample gamma mdl sigma g of
        (Inl e, g') \<Rightarrow> (Inl e, sigma, g')
      | (Inr v, g') \<Rightarrow> (Inr (''Sigma'', True), sigma\<lparr>current_value := v\<rparr>, g'))"
  by (simp add: step_def set_value_def split: prod.splits sum.splits)

lemma example_rate:
  "beta example_sigma + 0.5 * (\<Sum>r\<leftarrow>residuals example_model. r\<^sup>2) = 1 / 2"
  by (simp add: example_model_def example_sigma_def power2_eq_square)

lemma example_shape:
  "alpha example_sigma + real (n_obsv (data example_model)) / 2 = 2"
  by (simp add: example_model_def example_sigma_def example_store_def example_frame_def
      n_obsv_def)

lemma example_draw: "example_gamma 2 (Finite 2) 0 = (Inr (Finite 4), Suc 0)"
  by (simp add: example_gamma_def)

lemma example_sample:
  "sample example_gamma example_model example_sigma 0 = (Inr (Finite (1 / 2)), Suc 0)"
proof -
  have "(4::real) powr (- (1 / 2)) = 1 / sqrt 4" by (rule power_minus_half) simp
  moreover have "sqrt 4 = sqrt ((2::real)\<^sup>2)" by simp
  moreover have "sqrt ((2::real)\<^sup>2) = 2" by (simp only: real_sqrt_abs abs_numeral)
  ultimately have p: "(4::real) powr (- 0.5) = 1 / 2" by simp
  have "sample example_gamma example_model example_sigma 0
          = (Inr (np_power_minus_half (Finite 4)), Suc 0)"
    unfolding sample_cases Let_def example_rate example_shape using example_draw by simp
  with p show ?thesis by simp
qed

text \<open>
  Claim C2: with \<open>n = n_obsv\<close> and residuals \<open>r\<close>, \<open>sample\<close> asks the gamma draw
  for shape \<open>alpha + n/2\<close> and scale \<open>1/rate\<close>, where the rate is
  \<open>beta + 0.5 * sum(r_i^2)\<close> (the scale is \<open>inf\<close> at rate zero), at the generator
  state it was called in, and returns the draw to the power \<open>-0.5\<close>: for a positive
  draw \<open>x\<close> that is \<open>1 / sqrt x\<close>.
\<close>

theorem sample_posterior_parameters:
  "sample gamma mdl sigma g =
     (let shape = alpha sigma + real (n_obsv (data mdl)) / 2;
          rate = beta sigma + 0.5 * (\<Sum>r\<leftarrow>residuals mdl. r\<^sup>2)
      in case gamma shape (if rate = 0 then PosInf else Finite (1 / rate)) g of
           (Inl e, g') \<Rightarrow> (Inl e, g')
         | (Inr x, g') \<Rightarrow> (Inr (np_power_minus_half x), g'))
   \<and> (\<forall>x g'. beta sigma + 0.5 * (\<Sum>r\<leftarrow>residuals mdl. r\<^sup>2) \<noteq> 0
         \<and> gamma (alpha sigma + real (n_obsv (data mdl)) / 2)
                  (Finite (1 / (beta sigma + 0.5 * (\<Sum>r\<leftarrow>residuals mdl. r\<^sup>2)))) g
             = (Inr (Finite x), g')
         \<and> 0 < x
         \<longrightarrow> sample gamma mdl sigma g = (Inr (Finite (1 / sqrt x)), g'))"
proof (intro conjI allI impI)
  show "sample gamma mdl sigma g =
     (let shape = alpha sigma + real (n_obsv (data mdl)) / 2;
          rate = beta sigma + 0.5 * (\<Sum>r\<leftarrow>residuals mdl. r\<^sup>2)
      in case gamma shape (if rate = 0 then PosInf else Finite (1 / rate)) g of
           (Inl e, g') \<Rightarrow> (Inl e, g')
         | (Inr x, g') \<Rightarrow> (Inr (np_power_minus_half x), g'))"
    by (rule sample_cases)
next
  fix x g'
  assume a: "beta sigma + 0.5 * (\<Sum>r\<leftarrow>residuals mdl. r\<^sup>2) \<noteq> 0
         \<and> gamma (alpha sigma + real (n_obsv (data mdl)) / 2)
                  (Finite (1 / (beta sigma + 0.5 * (\<Sum>r\<leftarrow>residuals mdl. r\<^sup>2)))) g
             = (Inr (Finite x), g')
         \<and> 0 < x"
  then have "sample gamma mdl sigma g = (Inr (Finite (x powr (- (1 / 2)))), g')"
    by (simp add: sample_cases Let_def)
  with a show "sample gamma mdl sigma g = (Inr (Finite (1 / sqrt x)), g')"
    by (simp add: power_minus_half)
qed

theorem sample_posterior_parameters_witness:
  "beta example_sigma + 0.5 * (\<Sum>r\<leftarrow>residuals example_model. r\<^sup>2) = 1 / 2
   \<and> alpha example_sigma + real (n_obsv (data example_model)) / 2 = 2
   \<and> example_gamma 2 (Finite 2) 0 = (Inr (Finite 4), Suc 0)
   \<and> sample example_gamma example_model example_sigma 0 = (Inr (Finite (1 / sqrt 4)), Suc 0)"
proof -
  have "beta example_sigma + 0.5 * (\<Sum>r\<leftarrow>residuals example_model. r\<^sup>2) \<noteq> 0
         \<and> example_gamma (alpha example_sigma + real (n_obsv (data example_model)) / 2)
              (Finite (1 / (beta example_sigma
                              + 0.5 * (\<Sum>r\<leftarrow>residuals example_model. r\<^sup>2)))) 0
              = (Inr (Finite 4), Suc 0)
         \<and> (0::real) < 4"
    unfolding example_rate example_shape using example_draw by simp
  with sample_posterior_parameters [of example_gamma example_model example_sigma 0]
  have "sample example_gamma example_model example_sigma 0
          = (Inr (Finite (1 / sqrt 4)), Suc 0)"
    by blast
  with example_rate example_shape example_draw show ?thesis by (intro conjI)
qed

text \<open>
  Claim C7: whenever \<open>step\<close> returns, it returns the pair \<open>("Sigma", True)\<close>, and the
  holder it leaves is the given holder with the current value replaced by the draw of
  \<open>sample\<close>, the hyperparameters untouched; it returns whenever \<open>sample\<close> does. When
  \<open>sample\<close> raises, so does \<open>step\<close>, and the holder is unchanged. The model is only
  read: it is no part of what \<open>step\<close> gives back.
\<close>

theorem step_returns_Sigma_True:
  "(\<forall>res sigma' g'. step gamma mdl sigma g = (Inr res, sigma', g')
       \<longrightarrow> res = (''Sigma'', True)
           \<and> (\<exists>v. sample gamma mdl sigma g = (Inr v, g') \<and> sigma' = sigma\<lparr>current_value := v\<rparr>)
           \<and> alpha sigma' = alpha sigma \<and> beta sigma' = beta sigma)
   \<and> (\<forall>v g'. sample gamma mdl sigma g = (Inr v, g')
       \<longrightarrow> step gamma mdl sigma g = (Inr (''Sigma'', True), sigma\<lparr>current_value := v\<rparr>, g'))
   \<and> (\<forall>e g'. sample gamma mdl sigma g = (Inl e, g')
       \<longrightarrow> step gamma mdl sigma g = (Inl e, sigma, g'))"
  by (auto simp: step_cases split: prod.splits sum.splits)

theorem step_returns_Sigma_True_witness:
  "sample example_gamma example_model example_sigma 0 = (Inr (Finite (1 / 2)), Suc 0)
   \<and> step example_gamma example_model example_sigma 0
       = (Inr (''Sigma'', True),
          \<lparr>alpha = 1, beta = 1 / 4, current_value = Finite (1 / 2)\<rparr>, Suc 0)"
proof -
  from step_returns_Sigma_True [of example_gamma example_model example_sigma 0] example_sample
  have "step example_gamma example_model example_sigma 0
          = (Inr (''Sigma'', True), example_sigma\<lparr>current_value := Finite (1 / 2)\<rparr>, Suc 0)"
    by blast
  then have "step example_gamma example_model example_sigma 0
       = (Inr (''Sigma'', True),
          \<lparr>alpha = 1, beta = 1 / 4, current_value = Finite (1 / 2)\<rparr>, Suc 0)"
    by (simp add: example_sigma_def)
  with example_sample show ?thesis by (intro conjI)
qed

text \<open>
  At rate zero the scale is \<open>inf\<close>; when the draw is then \<open>inf\<close>, as the library's
  is, \<open>step\<close> returns normally and has written \<open>0.0\<close>.
\<close>

lemma step_at_rate_zero:
  assumes "beta sigma + 0.5 * (\<Sum>r\<leftarrow>residuals mdl. r\<^sup>2) = 0"
    and "gamma (alpha sigma + real (n_obsv (data mdl)) / 2) PosInf g = (Inr PosInf, g')"
  shows "step gamma mdl sigma g = (Inr (''Sigma'', True), sigma\<lparr>current_value := Finite 0\<rparr>, g')"
  using assms by (simp add: step_cases sample_cases Let_def)

text \<open>
  Claim C8 fails as stated: the holder has the positive current value 1 and the prior
  rate \<open>beta = 0\<close>, and the residuals are all zero. The posterior rate is \<open>0.0\<close>, the
  scale \<open>1./0.0\<close> is \<open>inf\<close>, the draw is \<open>inf\<close>, and \<open>step\<close> returns
  \<open>("Sigma", True)\<close> having written \<open>inf ** -0.5 = 0.0\<close>, which is not greater
  than zero.
\<close>

theorem step_writes_zero_counterexample:
  "greater_than_zero (current_value zero_rate_sigma)
   \<and> beta zero_rate_sigma + 0.5 * (\<Sum>r\<leftarrow>residuals exact_fit_model. r\<^sup>2) = 0
   \<and> example_gamma 2 PosInf 0 = (Inr PosInf, Suc 0)
   \<and> sample example_gamma exact_fit_model zero_rate_sigma 0 = (Inr (Finite 0), Suc 0)
   \<and> step example_gamma exact_fit_model zero_rate_sigma 0
       = (Inr (''Sigma'', True), \<lparr>alpha = 1, beta = 0, current_value = Finite 0\<rparr>, Suc 0)
   \<and> \<not> greater_than_zero (Finite 0)"
  by (simp add: step_cases sample_cases Let_def example_gamma_def zero_rate_sigma_def
      exact_fit_model_def example_store_def example_frame_def n_obsv_def)

text \<open>
  Claim C8, amended: \<open>step\<close> writes the gamma draw to the power \<open>-0.5\<close>, and that
  value is greater than zero exactly when the draw is a finite number that is not
  negative. In particular, when the posterior rate \<open>beta + 0.5 * sum(r_i^2)\<close> is
  positive (as it is for \<open>beta > 0\<close>), so that the scale is a positive real, and the
  draw is a positive real, the value written is a positive real. When the draw raises,
  nothing is written.
\<close>

theorem step_keeps_sigma_positive:
  "(\<forall>d g'. gamma (alpha sigma + real (n_obsv (data mdl)) / 2)
                  (np_reciprocal (beta sigma + 0.5 * (\<Sum>r\<leftarrow>residuals mdl. r\<^sup>2))) g
             = (Inr d, g')
         \<longrightarrow> step gamma mdl sigma g
               = (Inr (''Sigma'', True), sigma\<lparr>current_value := np_power_minus_half d\<rparr>, g')
             \<and> (greater_than_zero (np_power_minus_half d) \<longleftrightarrow> (\<exists>x. d = Finite x \<and> 0 \<le> x)))
   \<and> (\<forall>x g'. 0 < beta sigma + 0.5 * (\<Sum>r\<leftarrow>residuals mdl. r\<^sup>2)
         \<and> gamma (alpha sigma + real (n_obsv (data mdl)) / 2)
                  (Finite (1 / (beta sigma + 0.5 * (\<Sum>r\<leftarrow>residuals mdl. r\<^sup>2)))) g
             = (Inr (Finite x), g')
         \<and> 0 < x
         \<longrightarrow> (\<exists>v. 0 < v \<and> sample gamma mdl sigma g = (Inr (Finite v), g')
                \<and> step gamma mdl sigma g
                    = (Inr (''Sigma'', True), sigma\<lparr>current_value := Finite v\<rparr>, g')))
   \<and> (\<forall>e sigma' g'. step gamma mdl sigma g = (Inl e, sigma', g') \<longrightarrow> sigma' = sigma)"
proof (intro conjI allI impI)
  fix d g'
  assume "gamma (alpha sigma + real (n_obsv (data mdl)) / 2)
                  (np_reciprocal (beta sigma + 0.5 * (\<Sum>r\<leftarrow>residuals mdl. r\<^sup>2))) g
             = (Inr d, g')"
  then show "step gamma mdl sigma g
               = (Inr (''Sigma'', True), sigma\<lparr>current_value := np_power_minus_half d\<rparr>, g')"
    by (simp add: step_cases sample_def Let_def)
next
  fix d :: npfloat
  show "greater_than_zero (np_power_minus_half d) \<longleftrightarrow> (\<exists>x. d = Finite x \<and> 0 \<le> x)"
    by (rule np_power_minus_half_positive)
next
  fix x g'
  assume a: "0 < beta sigma + 0.5 * (\<Sum>r\<leftarrow>residuals mdl. r\<^sup>2)
         \<and> gamma (alpha sigma + real (n_obsv (data mdl)) / 2)
                  (Finite (1 / (beta sigma + 0.5 * (\<Sum>r\<leftarrow>residuals mdl. r\<^sup>2)))) g
             = (Inr (Finite x), g')
         \<and> 0 < x"
  then have s: "sample gamma mdl sigma g = (Inr (Finite (x powr (- (1 / 2)))), g')"
    by (simp add: sample_cases Let_def)
  moreover from a have "0 < x powr (- (1 / 2))" by simp
  moreover from s have "step gamma mdl sigma g
      = (Inr (''Sigma'', True), sigma\<lparr>current_value := Finite (x powr (- (1 / 2)))\<rparr>, g')"
    by (simp add: step_cases)
  ultimately show "\<exists>v. 0 < v \<and> sample gamma mdl sigma g = (Inr (Finite v), g')
                \<and> step gamma mdl sigma g
                    = (Inr (''Sigma'', True), sigma\<lparr>current_value := Finite v\<rparr>, g')"
    by blast
next
  fix e sigma' g'
  assume "step gamma mdl sigma g = (Inl e, sigma', g')"
  then show "sigma' = sigma"
    by (auto simp: step_cases split: prod.splits sum.splits)
qed

theorem step_keeps_sigma_positive_witness:
  "0 < beta example_sigma + 0.5 * (\<Sum>r\<leftarrow>residuals example_model. r\<^sup>2)
   \<and> example_gamma 2 (Finite 2) 0 = (Inr (Finite 4), Suc 0)
   \<and> (\<exists>v. 0 < v
          \<and> step example_gamma example_model example_sigma 0
              = (Inr (''Sigma'', True), example_sigma\<lparr>current_value := Finite v\<rparr>, Suc 0))"
proof -
  have pos: "0 < beta example_sigma + 0.5 * (\<Sum>r\<leftarrow>residuals example_model. r\<^sup>2)"
    unfolding example_rate by simp
  have "0 < beta example_sigma + 0.5 * (\<Sum>r\<leftarrow>residuals example_model. r\<^sup>2)
         \<and> example_gamma (alpha example_sigma + real (n_obsv (data example_model)) / 2)
              (Finite (1 / (beta example_sigma
                              + 0.5 * (\<Sum>r\<leftarrow>residuals example_model. r\<^sup>2)))) 0
              = (Inr (Finite 4), Suc 0)
         \<and> (0::real) < 4"
    unfolding example_rate example_shape using example_draw by simp
  with step_keeps_sigma_positive
    [where gamma = example_gamma and mdl = example_model and sigma = example_sigma and g = 0]
  have "\<exists>v. 0 < v
          \<and> step example_gamma example_model example_sigma 0
              = (Inr (''Sigma'', True), example_sigma\<lparr>current_value := Finite v\<rparr>, Suc 0)"
    by blast
  with pos example_draw show ?thesis by (intro conjI)
qed

end
